theory Spec2Isabelle
  imports
    Complex_Main
    "HOL-Library.Word"
    "HOL-Library.Signed_Division"
    "HOL-Library.Monad_Syntax"
    "HOL-Library.Multiset"
begin

section \<open>Machine types of the sources\<close>

text \<open>
  Samples are \<open>quint16\<close>: 16-bit words, compared unsigned. Coordinates, sizes and the
  geometry are \<open>qint32\<close>; they are modelled as mathematical integers, because signed
  overflow is undefined in C++ (lemma \<open>expandActiveWidth_in_qint32\<close> below gives a
  range on which the geometry loop stays inside 32 bits). The operator \<open>%\<close> of C++
  truncates towards zero: it is \<open>smod\<close>.

  A \<open>double\<close> is modelled by a rational number. Sums and halves of 16-bit values are
  exact in a double. The band \<open>m \<plusminus> (m / 100) * 10\<close> of \<open>diffDod\<close> is not, but the code
  uses its two ends only after the conversion to \<open>quint16\<close>, and for each of the 65536
  medians the converted ends of the IEEE computation are those of the exact one (an
  enumeration outside this theory).
\<close>

type_synonym quint16 = "16 word"
type_synonym qint32 = int
type_synonym double = rat

definition to_double :: "quint16 \<Rightarrow> double" where
  \<comment> \<open>\<open>static_cast<double>(v)\<close>\<close>
  "to_double v = of_nat (unat v)"

definition to_quint16 :: "double \<Rightarrow> quint16" where
  \<comment> \<open>\<open>static_cast<quint16>(d)\<close>: the fractional part is discarded\<close>
  "to_quint16 d = word_of_int (if 0 \<le> d then \<lfloor>d\<rfloor> else \<lceil>d\<rceil>)"

text \<open>
  \<open>QVector::operator[]\<close> is defined inside the vector only (an assertion in debug builds):
  a read or a write outside it is \<open>None\<close>.
\<close>

definition qvec_at :: "'a list \<Rightarrow> qint32 \<Rightarrow> 'a option" where
  "qvec_at xs i = (if 0 \<le> i \<and> i < int (length xs) then Some (xs ! nat i) else None)"

definition qvec_set :: "'a list \<Rightarrow> qint32 \<Rightarrow> 'a \<Rightarrow> 'a list option" where
  "qvec_set xs i v = (if 0 \<le> i \<and> i < int (length xs) then Some (xs[nat i := v]) else None)"

section \<open>Data of the stacker\<close>

record DropOut =
  startx :: qint32
  endx :: qint32
  fieldLine :: qint32

text \<open>
  The class \<open>DropOuts\<close> keeps three parallel vectors read by \<open>startx(i)\<close>, \<open>endx(i)\<close> and
  \<open>fieldLine(i)\<close>: a list of triples, in the order of insertion.
\<close>

type_synonym DropOuts = "DropOut list"

definition dropOuts_append :: "DropOuts \<Rightarrow> qint32 \<Rightarrow> qint32 \<Rightarrow> qint32 \<Rightarrow> DropOuts" where
  \<comment> \<open>Modelled from the spec: \<open>DropOuts::append\<close>, declared in a header that is not part of
      the sources; it adds one interval at the end and merges nothing.\<close>
  "dropOuts_append ds sx ex line = ds @ [\<lparr>startx = sx, endx = ex, fieldLine = line\<rparr>]"

record Field =
  dropOuts :: DropOuts

record VideoParameters =
  fieldWidth :: qint32
  fieldHeight :: qint32
  colourBurstStart :: qint32
  activeVideoStart :: qint32
  activeVideoEnd :: qint32
  isSourcePal :: bool

section \<open>\<open>Stacker::isDropout\<close>\<close>

fun isDropout :: "DropOuts \<Rightarrow> qint32 \<Rightarrow> qint32 \<Rightarrow> bool" where
  "isDropout [] fieldX fieldY = False"
| "isDropout (d # ds) fieldX fieldY =
     (if fieldLine d - 1 = fieldY \<and> (fieldX \<ge> startx d \<and> fieldX \<le> endx d) then True
      else isDropout ds fieldX fieldY)"

section \<open>\<open>Stacker::median\<close>\<close>

text \<open>
  \<open>std::nth_element\<close> belongs to the C++ library, so it is a parameter of the model:
  \<open>sel xs n\<close> is the vector after \<open>nth_element(begin, begin + n, end)\<close>. The standard
  promises what \<open>nth_element_post\<close> says and nothing about the order of the other elements.
\<close>

type_synonym nth_element = "quint16 list \<Rightarrow> nat \<Rightarrow> quint16 list"

definition nth_element_post :: "nth_element \<Rightarrow> bool" where
  "nth_element_post sel \<longleftrightarrow>
     (\<forall>xs n. n < length xs \<longrightarrow>
        mset (sel xs n) = mset xs \<and>
        sel xs n ! n = sort xs ! n \<and>
        (\<forall>i j. i < n \<and> n \<le> j \<and> j < length xs \<longrightarrow> \<not> sel xs n ! j < sel xs n ! i))"

definition nth_element_sort :: nth_element where
  \<comment> \<open>one implementation the standard allows: order the whole range\<close>
  "nth_element_sort xs n = sort xs"

definition nth_element_desc :: nth_element where
  \<comment> \<open>another one: the selected element in place, the greater ones after it in falling order\<close>
  "nth_element_desc xs n = take (Suc n) (sort xs) @ rev (drop (Suc n) (sort xs))"

text \<open>
  The element count is a \<open>qint32\<close> that is never negative; \<open>noOfElements / 2\<close> and
  \<open>(noOfElements - 1) / 2\<close> are the same numbers on naturals, also at 0, where the
  truncating division of \<open>-1\<close> gives 0.
\<close>

definition median :: "nth_element \<Rightarrow> quint16 list \<Rightarrow> quint16" where
  "median sel elements =
     (let noOfElements = length elements in
      if noOfElements mod 2 = 0 then
        let elements = sel elements (noOfElements div 2);
            elements = sel elements ((noOfElements - 1) div 2)
        in to_quint16
             (of_nat (unat (elements ! ((noOfElements - 1) div 2)) + unat (elements ! (noOfElements div 2))) / 2)
      else
        let elements = sel elements (noOfElements div 2)
        in elements ! (noOfElements div 2))"

section \<open>\<open>Stacker::diffDod\<close>\<close>

text \<open>The lines \<open>diffDod\<close> writes with \<open>qDebug\<close>; every call writes at least one.\<close>

datatype debug_msg =
    OnlyReceived nat
  | NotInVisibleArea
  | DiffDodInput "quint16 list"
  | EmptyOutput quint16 quint16 double
  | DiffDodOutput "quint16 list"

definition diffDod ::
  "nth_element \<Rightarrow> quint16 list \<Rightarrow> VideoParameters \<Rightarrow> qint32 \<Rightarrow> quint16 list \<times> debug_msg list" where
  "diffDod sel inputValues videoParameters xPos =
     (if length inputValues < 3 then ([], [OnlyReceived (length inputValues)])
      else if xPos < colourBurstStart videoParameters then ([], [NotInVisibleArea])
      else
        let medianValue = to_double (median sel inputValues);
            threshold = 10;
            maxValueD = medianValue + ((medianValue / 100) * threshold);
            minValueD = medianValue - ((medianValue / 100) * threshold);
            minValueD = (if minValueD < 0 then 0 else minValueD);
            maxValueD = (if maxValueD > 65535 then 65535 else maxValueD);
            minValue = to_quint16 minValueD;
            maxValue = to_quint16 maxValueD;
            outputValues = filter (\<lambda>v. v > minValue \<and> v < maxValue) inputValues
        in (outputValues,
            DiffDodInput inputValues #
              (if length outputValues = 0 then [EmptyOutput minValue maxValue medianValue]
               else [DiffDodOutput outputValues])))"

section \<open>\<open>Stacker::stackField\<close>\<close>

text \<open>The first loop over the sources: the samples of the sources with no dropout at the pixel.\<close>

fun validValues ::
  "quint16 list list \<Rightarrow> VideoParameters \<Rightarrow> Field list \<Rightarrow> qint32 list \<Rightarrow> qint32 \<Rightarrow> qint32
     \<Rightarrow> quint16 list option" where
  "validValues inputFields vp fieldMetadata [] x y = Some []"
| "validValues inputFields vp fieldMetadata (src # srcs) x y = do {
     md \<leftarrow> qvec_at fieldMetadata src;
     here \<leftarrow> (if \<not> isDropout (dropOuts md) x y then do {
                 fld \<leftarrow> qvec_at inputFields src;
                 v \<leftarrow> qvec_at fld ((fieldWidth vp * y) + x);
                 Some [v] }
              else Some []);
     rest \<leftarrow> validValues inputFields vp fieldMetadata srcs x y;
     Some (here @ rest) }"

text \<open>The second loop, of the rescue: every source's sample at the pixel that is not 0.\<close>

fun rawValues ::
  "quint16 list list \<Rightarrow> VideoParameters \<Rightarrow> qint32 list \<Rightarrow> qint32 \<Rightarrow> qint32 \<Rightarrow> quint16 list option" where
  "rawValues inputFields vp [] x y = Some []"
| "rawValues inputFields vp (src # srcs) x y = do {
     fld \<leftarrow> qvec_at inputFields src;
     pixelValue \<leftarrow> qvec_at fld ((fieldWidth vp * y) + x);
     rest \<leftarrow> rawValues inputFields vp srcs x y;
     Some ((if pixelValue > 0 then [pixelValue] else []) @ rest) }"

text \<open>
  Lines 87 to 111: the value set the fusion works on, with what \<open>diffDod\<close> logged when it
  was called.
\<close>

definition workingValues ::
  "nth_element \<Rightarrow> quint16 list list \<Rightarrow> VideoParameters \<Rightarrow> Field list \<Rightarrow> qint32 list \<Rightarrow> bool
     \<Rightarrow> qint32 \<Rightarrow> qint32 \<Rightarrow> (quint16 list \<times> debug_msg list) option" where
  "workingValues sel inputFields vp fieldMetadata availableSourcesForFrame noDiffDod x y = do {
     inputValues \<leftarrow> validValues inputFields vp fieldMetadata availableSourcesForFrame x y;
     if (length inputValues \<le> 3) \<and> (length availableSourcesForFrame > 3) \<and> (noDiffDod = False)
     then do {
       inputValues \<leftarrow> rawValues inputFields vp availableSourcesForFrame x y;
       Some (diffDod sel inputValues vp x) }
     else Some (inputValues, []) }"

record StackState =
  outputField :: "quint16 list"
  outDropOuts :: DropOuts
  prevGoodValue :: quint16
  debugOut :: "debug_msg list"

text \<open>Lines 118 to 140: the fusion by the size of the value set.\<close>

definition fuse ::
  "nth_element \<Rightarrow> VideoParameters \<Rightarrow> qint32 \<Rightarrow> qint32 \<Rightarrow> quint16 list \<Rightarrow> StackState
     \<Rightarrow> StackState option" where
  "fuse sel vp x y inputValues st =
     (let idx = (fieldWidth vp * y) + x in
      if length inputValues > 2 then do {
        out \<leftarrow> qvec_set (outputField st) idx (median sel inputValues);
        good \<leftarrow> qvec_at out idx;
        Some (st\<lparr>outputField := out, prevGoodValue := good\<rparr>) }
      else if length inputValues = 0 then do {
        out \<leftarrow> qvec_set (outputField st) idx (prevGoodValue st);
        Some (st\<lparr>outputField := out,
                 outDropOuts := (if x > colourBurstStart vp
                                 then dropOuts_append (outDropOuts st) x x (y + 1)
                                 else outDropOuts st)\<rparr>) }
      else if length inputValues = 1 then do {
        out \<leftarrow> qvec_set (outputField st) idx (inputValues ! 0);
        good \<leftarrow> qvec_at out idx;
        Some (st\<lparr>outputField := out, prevGoodValue := good\<rparr>) }
      else do {
        out \<leftarrow> qvec_set (outputField st) idx
                 (to_quint16 ((to_double (inputValues ! 0) + to_double (inputValues ! 1)) / 2));
        good \<leftarrow> qvec_at out idx;
        Some (st\<lparr>outputField := out, prevGoodValue := good\<rparr>) })"

text \<open>The body of the two loops over the pixels.\<close>

definition stackPixel ::
  "nth_element \<Rightarrow> quint16 list list \<Rightarrow> VideoParameters \<Rightarrow> Field list \<Rightarrow> qint32 list \<Rightarrow> bool
     \<Rightarrow> qint32 \<Rightarrow> qint32 \<Rightarrow> StackState \<Rightarrow> StackState option" where
  "stackPixel sel inputFields vp fieldMetadata availableSourcesForFrame noDiffDod x y st = do {
     (inputValues, dbg) \<leftarrow>
        workingValues sel inputFields vp fieldMetadata availableSourcesForFrame noDiffDod x y;
     fuse sel vp x y inputValues (st\<lparr>debugOut := debugOut st @ dbg\<rparr>) }"

fun stackColumns ::
  "nth_element \<Rightarrow> quint16 list list \<Rightarrow> VideoParameters \<Rightarrow> Field list \<Rightarrow> qint32 list \<Rightarrow> bool
     \<Rightarrow> qint32 list \<Rightarrow> qint32 \<Rightarrow> StackState \<Rightarrow> StackState option" where
  "stackColumns sel inputFields vp fieldMetadata avail noDiffDod [] y st = Some st"
| "stackColumns sel inputFields vp fieldMetadata avail noDiffDod (x # xs) y st = do {
     st' \<leftarrow> stackPixel sel inputFields vp fieldMetadata avail noDiffDod x y st;
     stackColumns sel inputFields vp fieldMetadata avail noDiffDod xs y st' }"

fun stackLines ::
  "nth_element \<Rightarrow> quint16 list list \<Rightarrow> VideoParameters \<Rightarrow> Field list \<Rightarrow> qint32 list \<Rightarrow> bool
     \<Rightarrow> qint32 list \<Rightarrow> StackState \<Rightarrow> StackState option" where
  "stackLines sel inputFields vp fieldMetadata avail noDiffDod [] st = Some st"
| "stackLines sel inputFields vp fieldMetadata avail noDiffDod (y # ys) st = do {
     st' \<leftarrow> stackColumns sel inputFields vp fieldMetadata avail noDiffDod
              [0 .. fieldWidth vp - 1] y st;
     stackLines sel inputFields vp fieldMetadata avail noDiffDod ys st' }"

definition stackFieldStart :: "quint16 list \<Rightarrow> DropOuts \<Rightarrow> StackState" where
  \<comment> \<open>the two reference parameters on entry, and line 82\<close>
  "stackFieldStart outputField0 dropOuts0 =
     \<lparr>outputField = outputField0, outDropOuts = dropOuts0, prevGoodValue = 0, debugOut = []\<rparr>"

text \<open>
  \<open>DropOuts::concatenate\<close> is not part of the sources either; it is a parameter of
  \<open>stackField\<close>, called once after the loops when any dropout was recorded.
\<close>

definition stackField ::
  "nth_element \<Rightarrow> (DropOuts \<Rightarrow> DropOuts) \<Rightarrow> quint16 list list \<Rightarrow> VideoParameters \<Rightarrow> Field list
     \<Rightarrow> qint32 list \<Rightarrow> bool \<Rightarrow> quint16 list \<Rightarrow> DropOuts \<Rightarrow> StackState option" where
  "stackField sel concatenate inputFields vp fieldMetadata avail noDiffDod outputField0 dropOuts0 = do {
     st \<leftarrow> stackLines sel inputFields vp fieldMetadata avail noDiffDod
             [0 .. fieldHeight vp - 1] (stackFieldStart outputField0 dropOuts0);
     Some (if length (outDropOuts st) \<noteq> 0
           then st\<lparr>outDropOuts := concatenate (outDropOuts st)\<rparr> else st) }"

section \<open>The statements of the specification, for comparison\<close>



text \<open>
  Whether the second \<open>nth_element\<close> call of the even branch of \<open>median\<close> leaves the upper
  central order statistic, which the first call placed, at its index.
\<close>

definition upper_kept :: "nth_element \<Rightarrow> quint16 list \<Rightarrow> bool" where
  "upper_kept sel vs =
     (let n = length vs in
      sel (sel vs (n div 2)) ((n - 1) div 2) ! (n div 2) = sort vs ! (n div 2))"

section \<open>\<open>PalDecoder::configure\<close>\<close>

record Configuration =
  blackAndWhite :: bool
  videoParameters :: VideoParameters
  frameHeight :: qint32
  firstActiveScanLine :: qint32
  lastActiveScanLine :: qint32

text \<open>The local \<open>width\<close> of the loop of lines 57 to 69, and the body after the exit test.\<close>

definition activeWidth :: "VideoParameters \<Rightarrow> qint32" where
  "activeWidth vp = activeVideoEnd vp - activeVideoStart vp"

definition in_qint32 :: "int \<Rightarrow> bool" where
  "in_qint32 k \<longleftrightarrow> - 2147483648 \<le> k \<and> k \<le> 2147483647"

definition expandStep :: "VideoParameters \<Rightarrow> VideoParameters" where
  "expandStep vp =
     (let width = activeVideoEnd vp - activeVideoStart vp in
      if (width smod 2) = 0 then vp\<lparr>activeVideoEnd := activeVideoEnd vp + 1\<rparr>
      else vp\<lparr>activeVideoStart := activeVideoStart vp - 1\<rparr>)"

function expandActiveWidth :: "VideoParameters \<Rightarrow> VideoParameters" where
  "expandActiveWidth vp =
     (let width = activeVideoEnd vp - activeVideoStart vp in
      if (width smod 16) = 0 then vp else expandActiveWidth (expandStep vp))"
  by pat_completeness auto
termination
proof (relation "measure (\<lambda>vp. nat ((activeVideoStart vp - activeVideoEnd vp) mod 16))")
  show "wf (measure (\<lambda>vp. nat ((activeVideoStart vp - activeVideoEnd vp) mod 16)))"
    by simp
next
  fix vp :: VideoParameters and width :: int
  assume w: "width = activeVideoEnd vp - activeVideoStart vp" and n: "width smod 16 \<noteq> 0"
  have "\<not> 16 dvd width"
  proof
    assume "16 dvd width"
    then have "\<bar>width\<bar> mod 16 = 0" by simp
    with n show False by (simp add: smod_int_alt_def)
  qed
  then have nz: "(- width) mod 16 \<noteq> 0"
    by (simp add: mod_eq_0_iff_dvd)
  have "0 \<le> (- width) mod 16" "(- width) mod 16 < 16" by simp_all
  with nz have r: "0 \<le> (- width) mod 16 - 1" "(- width) mod 16 - 1 < 16" by linarith+
  have "(- width - 1) mod 16 = ((- width) mod 16 - 1) mod 16"
    by (simp add: mod_diff_left_eq)
  also have "\<dots> = (- width) mod 16 - 1"
    using r by (rule mod_pos_pos_trivial)
  finally have less: "(- width - 1) mod 16 < (- width) mod 16" by simp
  have "activeVideoStart (expandStep vp) - activeVideoEnd (expandStep vp) = - width - 1"
    using w by (simp add: expandStep_def Let_def)
  with less w show "(expandStep vp, vp) \<in>
      measure (\<lambda>vp. nat ((activeVideoStart vp - activeVideoEnd vp) mod 16))"
    by simp
qed

declare expandActiveWidth.simps [simp del]

definition configure :: "Configuration \<Rightarrow> VideoParameters \<Rightarrow> bool \<times> Configuration" where
  "configure config vp =
     (if \<not> isSourcePal vp then (False, config)
      else
        let config = config\<lparr>videoParameters := vp\<rparr>;
            config = config\<lparr>frameHeight := (fieldHeight vp * 2) - 1\<rparr>;
            config = config\<lparr>firstActiveScanLine := 44\<rparr>;
            config = config\<lparr>lastActiveScanLine := 620\<rparr>;
            config = (if ((lastActiveScanLine config - firstActiveScanLine config) smod 2) \<noteq> 0
                      then config\<lparr>lastActiveScanLine := lastActiveScanLine config - 1\<rparr>
                      else config);
            config = config\<lparr>videoParameters := expandActiveWidth (videoParameters config)\<rparr>
        in (True, config))"

section \<open>\<open>PalThread::run\<close>: the output frame\<close>

type_synonym byte = "8 word"

definition mid :: "'a list \<Rightarrow> qint32 \<Rightarrow> qint32 \<Rightarrow> 'a list" where
  \<comment> \<open>\<open>QByteArray::mid(pos, len)\<close> of the Qt library: \<open>len\<close> bytes from \<open>pos\<close>, fewer when the
      array ends before; a negative \<open>len\<close> means up to the end, a negative \<open>pos\<close> shortens
      the span by as much.\<close>
  "mid xs pos len =
     (if pos < 0 then (if len < 0 then xs else take (nat (len + pos)) xs)
      else if len < 0 then drop (nat pos) xs
      else take (nat len) (drop (nat pos) xs))"

text \<open>
  Lines 129 to 146: \<open>outputData\<close> is the buffer \<open>performDecode\<close> returned. Each loop appends
  to \<open>rgbOutputData\<close>; \<open>resize\<close> to a negative size gives the empty array.
\<close>

definition rgbOutputData :: "Configuration \<Rightarrow> byte list \<Rightarrow> byte list" where
  "rgbOutputData config outputData =
     (let rgb = [];
          activeVideoStart = activeVideoStart (videoParameters config);
          activeVideoEnd = activeVideoEnd (videoParameters config);
          blankLine = replicate (nat ((activeVideoEnd - activeVideoStart) * 6)) (0 :: byte);
          rgb = foldl (\<lambda>rgb y. rgb @ blankLine) rgb
                  [0 .. 576 - (lastActiveScanLine config - firstActiveScanLine config) - 1];
          rgb = foldl (\<lambda>rgb y. rgb @
                    mid outputData
                      ((y * fieldWidth (videoParameters config) * 6) + (activeVideoStart * 6))
                      ((activeVideoEnd - activeVideoStart) * 6)) rgb
                  [firstActiveScanLine config .. lastActiveScanLine config - 1]
      in rgb)"

section \<open>The worker loops\<close>

text \<open>
  The pools are not part of the sources and enter the model as a parameter: the list of
  the units of work still to hand out, each with the answer its output call will get.
  \<open>getInputFrame\<close> hands out the next unit and returns true, or returns false when none
  is left. A run returns the flag and the calls the worker made, with their answers, in
  order. What lies between the two calls of one iteration (the stacking of the two
  fields, the decoding and cropping of the frame) has no exit from the loop and does not
  touch the flag.
\<close>

datatype pool_call = GetInputFrame bool | PutOutputFrame bool

fun palThread_run :: "bool \<Rightarrow> bool list \<Rightarrow> bool \<times> pool_call list" where
  "palThread_run abort [] =
     (if abort then (abort, []) else (abort, [GetInputFrame False]))"
| "palThread_run abort (accepted # pool) =
     (if abort then (abort, [])
      else if \<not> accepted then (True, [GetInputFrame True, PutOutputFrame accepted])
      else (let (abort', calls) = palThread_run abort pool
            in (abort', GetInputFrame True # PutOutputFrame accepted # calls)))"

text \<open>\<open>Stacker::run\<close> calls \<open>setOutputFrame\<close> as a statement: what it returns is dropped.\<close>

fun stacker_run :: "bool \<Rightarrow> bool list \<Rightarrow> bool \<times> pool_call list" where
  "stacker_run abort [] =
     (if abort then (abort, []) else (abort, [GetInputFrame False]))"
| "stacker_run abort (accepted # pool) =
     (if abort then (abort, [])
      else (let (abort', calls) = stacker_run abort pool
            in (abort', GetInputFrame True # PutOutputFrame accepted # calls)))"

section \<open>Concrete inputs\<close>

definition vp1 :: VideoParameters where
  \<comment> \<open>a field of one line of two samples, the colour burst starting at column 0\<close>
  "vp1 = \<lparr>fieldWidth = 2, fieldHeight = 1, colourBurstStart = 0, activeVideoStart = 0,
          activeVideoEnd = 2, isSourcePal = True\<rparr>"

definition clean :: Field where
  "clean = \<lparr>dropOuts = []\<rparr>"

definition flagged :: Field where
  \<comment> \<open>both samples of line 1 are marked as dropouts\<close>
  "flagged = \<lparr>dropOuts = [\<lparr>startx = 0, endx = 1, fieldLine = 1\<rparr>]\<rparr>"

definition palGeometry :: VideoParameters where
  \<comment> \<open>a PAL capture: 1135 samples on each of 313 field lines, active from 185 to 1107\<close>
  "palGeometry = \<lparr>fieldWidth = 1135, fieldHeight = 313, colourBurstStart = 98,
                  activeVideoStart = 185, activeVideoEnd = 1107, isSourcePal = True\<rparr>"

definition palConformant :: VideoParameters where
  \<comment> \<open>the same capture with an active width of 928 = 16 * 58\<close>
  "palConformant = palGeometry\<lparr>activeVideoStart := 182, activeVideoEnd := 1110\<rparr>"

definition config0 :: Configuration where
  \<comment> \<open>what the constructor of \<open>PalDecoder\<close> leaves: only \<open>blackAndWhite\<close> is set\<close>
  "config0 = \<lparr>blackAndWhite = False, videoParameters = palGeometry\<lparr>isSourcePal := False\<rparr>,
               frameHeight = 0, firstActiveScanLine = 0, lastActiveScanLine = 0\<rparr>"

definition st1 :: StackState where
  \<comment> \<open>the scan of a field after a first pixel of value 7\<close>
  "st1 = \<lparr>outputField = [7, 0], outDropOuts = [], prevGoodValue = 7, debugOut = []\<rparr>"

section \<open>Facts about \<open>isDropout\<close>\<close>

text \<open>
  C6: for every set of defect intervals, in any order and merged or not, and every pixel
  \<open>(x, y)\<close>, \<open>isDropout\<close> is true exactly when some interval of the set has
  \<open>lineNumber - 1 = y\<close> and \<open>startColumn \<le> x \<le> endColumn\<close>.
\<close>

theorem isDropout_iff:
  "isDropout ds x y \<longleftrightarrow> (\<exists>d \<in> set ds. fieldLine d - 1 = y \<and> startx d \<le> x \<and> x \<le> endx d)"
  by (induction ds) auto

section \<open>Conversions between samples and doubles\<close>

lemma unat_quint16_less: "unat (a :: quint16) < 65536"
  using unsigned_less [of a] by simp

lemma to_quint16_of_nat_div:
  assumes "0 < d" "n div d < 65536"
  shows "to_quint16 (of_nat n / of_nat d) = word_of_nat (n div d)"
    and "unat (to_quint16 (of_nat n / of_nat d)) = n div d"
proof -
  have nn: "(0::rat) \<le> of_nat n / of_nat d"
    by (intro divide_nonneg_nonneg of_nat_0_le_iff)
  have fl: "\<lfloor>(of_nat n :: rat) / of_nat d\<rfloor> = int (n div d)"
    by (simp only: floor_divide_of_nat_eq)
  show w: "to_quint16 (of_nat n / of_nat d) = word_of_nat (n div d)"
    unfolding to_quint16_def using nn fl
    by (simp only: if_True of_int_of_nat_eq flip: of_nat_div)
  show "unat (to_quint16 (of_nat n / of_nat d)) = n div d"
    unfolding w using assms(2) by (simp add: unsigned_of_nat take_bit_nat_eq_self)
qed

lemma to_double_sum: "(to_double a + to_double b) / 2 = of_nat (unat a + unat b) / of_nat 2"
  unfolding to_double_def by (simp only: of_nat_add of_nat_numeral)

lemma to_quint16_half:
  "unat (to_quint16 ((to_double a + to_double b) / 2)) = (unat a + unat b) div 2"
proof -
  have "(unat a + unat b) div 2 < 65536"
    using unat_quint16_less [of a] unat_quint16_less [of b] by linarith
  then show ?thesis
    unfolding to_double_sum by (intro to_quint16_of_nat_div) simp_all
qed

section \<open>The fusion of one pixel\<close>

lemma qvec_set_at: "qvec_set xs i v = Some out \<Longrightarrow> qvec_at out i = Some v"
  by (auto simp: qvec_set_def qvec_at_def split: if_splits)

lemma stackPixel_fuse:
  assumes "workingValues sel inputFields vp md avail noDiffDod x y = Some (vs, dbg)"
  shows "stackPixel sel inputFields vp md avail noDiffDod x y st =
           fuse sel vp x y vs (st\<lparr>debugOut := debugOut st @ dbg\<rparr>)"
  using assms by (simp add: stackPixel_def)


lemma fuse_two:
  assumes "fuse sel vp x y [a, b] st = Some st'"
  shows "qvec_at (outputField st') (fieldWidth vp * y + x) =
           Some (to_quint16 ((to_double a + to_double b) / 2))"
    and "prevGoodValue st' = to_quint16 ((to_double a + to_double b) / 2)"
  using assms
  by (auto simp: fuse_def Let_def split: bind_splits if_splits dest: qvec_set_at)


text \<open>
  C7: for every value set of two 16-bit samples \<open>a\<close> and \<open>b\<close>, the sample written for the
  pixel is \<open>floor ((a + b) / 2)\<close>, the mean with its fraction cut off.
\<close>

theorem stackPixel_two_values:
  assumes "workingValues sel inputFields vp md avail noDiffDod x y = Some ([a, b], dbg)"
    and "stackPixel sel inputFields vp md avail noDiffDod x y st = Some st'"
  shows "\<exists>v. qvec_at (outputField st') (fieldWidth vp * y + x) = Some v \<and>
             unat v = (unat a + unat b) div 2"
proof -
  from assms have f: "fuse sel vp x y [a, b] (st\<lparr>debugOut := debugOut st @ dbg\<rparr>) = Some st'"
    by (simp add: stackPixel_fuse)
  with fuse_two(1) [OF f] to_quint16_half [of a b] show ?thesis
    by simp
qed

text \<open>Two clean sources with the samples 3 and 4 at the second pixel give 3.\<close>

theorem stackPixel_two_values_witness:
  "stackPixel nth_element_sort [[0, 3], [0, 4]] vp1 [clean, clean] [0, 1] False 1 0 st1 =
     Some (st1\<lparr>outputField := [7, 3], prevGoodValue := 3\<rparr>) \<and>
   (\<exists>v. qvec_at [7, 3 :: quint16] 1 = Some v \<and> unat v = 3)"
proof -
  have wv: "workingValues nth_element_sort [[0, 3], [0, 4]] vp1 [clean, clean] [0, 1] False 1 0
              = Some ([3, 4], [])"
    by code_simp
  have sp: "stackPixel nth_element_sort [[0, 3], [0, 4]] vp1 [clean, clean] [0, 1] False 1 0 st1
              = Some (st1\<lparr>outputField := [7, 3], prevGoodValue := 3\<rparr>)"
    by code_simp
  show ?thesis
    using sp stackPixel_two_values [OF wv sp] by (simp add: vp1_def)
qed



text \<open>
  The whole of \<open>stackField\<close> over a line of two pixels whose only source is flagged: the
  scan starts from 0, writes 0 twice and records the second pixel, the first one being at
  the colour-burst start.
\<close>

lemma stackField_all_flagged:
  "stackField nth_element_sort (\<lambda>ds. ds) [[7, 9]] vp1 [flagged] [0] True [0, 0] [] =
     Some \<lparr>outputField = [0, 0], outDropOuts = [\<lparr>startx = 1, endx = 1, fieldLine = 1\<rparr>],
           prevGoodValue = 0, debugOut = []\<rparr>"
  by code_simp

section \<open>The rescue\<close>

lemma diffDod_logs: "snd (diffDod sel raw vp x) \<noteq> []"
  by (simp add: diffDod_def Let_def)

text \<open>
  C2, as the code has it: at every pixel the rescue is entered, which shows in the lines
  \<open>diffDod\<close> logs, exactly when at most 3 sources have a valid sample there, more than 3
  sources are available and \<open>noDiffDod\<close> is false. No valid sample at all is the first
  case of the test, not an exception to it. When the rescue is entered the value set is
  what \<open>diffDod\<close> returns for the non-zero samples of all sources; otherwise it is the
  set of valid samples.
\<close>

theorem rescue_invoked_iff:
  assumes "validValues inputFields vp md avail x y = Some valid"
    and "workingValues sel inputFields vp md avail noDiffDod x y = Some (vs, dbg)"
  shows "(dbg \<noteq> [] \<longleftrightarrow> length valid \<le> 3 \<and> length avail > 3 \<and> \<not> noDiffDod) \<and>
         (dbg \<noteq> [] \<longrightarrow>
            (\<exists>raw. rawValues inputFields vp avail x y = Some raw \<and> (vs, dbg) = diffDod sel raw vp x)) \<and>
         (dbg = [] \<longrightarrow> vs = valid)"
proof (cases "length valid \<le> 3 \<and> length avail > 3 \<and> \<not> noDiffDod")
  case True
  with assms obtain raw where raw: "rawValues inputFields vp avail x y = Some raw"
    and res: "diffDod sel raw vp x = (vs, dbg)"
    by (auto simp: workingValues_def split: bind_splits)
  from res diffDod_logs [of sel raw vp x] have "dbg \<noteq> []" by simp
  with True raw res show ?thesis by simp
next
  case False
  with assms have "vs = valid" "dbg = []"
    by (auto simp: workingValues_def split: bind_splits)
  with False show ?thesis by simp
qed

text \<open>
  Four sources, two of them clean, rescue on: two valid samples, and \<open>diffDod\<close> is called.
\<close>

theorem rescue_invoked_iff_witness:
  "snd (diffDod nth_element_sort [100, 100, 104] vp1 1) \<noteq> [] \<and>
   length [100, 100 :: quint16] \<le> 3 \<and> length [0, 1, 2, 3 :: int] > 3"
proof -
  have vv: "validValues [[0, 100], [0, 100], [0, 104], [0, 0]] vp1
     [clean, clean, flagged, flagged] [0, 1, 2, 3] 1 0 = Some [100, 100]"
    by code_simp
  have wv: "workingValues nth_element_sort [[0, 100], [0, 100], [0, 104], [0, 0]] vp1
     [clean, clean, flagged, flagged] [0, 1, 2, 3] False 1 0 =
     Some (fst (diffDod nth_element_sort [100, 100, 104] vp1 1),
           snd (diffDod nth_element_sort [100, 100, 104] vp1 1))"
    by code_simp
  show ?thesis
    using rescue_invoked_iff [OF vv wv] by simp
qed

text \<open>
  Four sources, all flagged at the pixel, rescue on: there is no valid sample, and
  \<open>diffDod\<close> is called on the four raw samples and returns them all.
\<close>

theorem rescue_invoked_without_valid_sample:
  "validValues [[0, 100], [0, 100], [0, 100], [0, 100]] vp1
     [flagged, flagged, flagged, flagged] [0, 1, 2, 3] 1 0 = Some [] \<and>
   workingValues nth_element_sort [[0, 100], [0, 100], [0, 100], [0, 100]] vp1
     [flagged, flagged, flagged, flagged] [0, 1, 2, 3] False 1 0 =
     Some (diffDod nth_element_sort [100, 100, 100, 100] vp1 1) \<and>
   diffDod nth_element_sort [100, 100, 100, 100] vp1 1 =
     ([100, 100, 100, 100],
      [DiffDodInput [100, 100, 100, 100], DiffDodOutput [100, 100, 100, 100]])"
  by code_simp




section \<open>The median\<close>


lemma nth_element_post_desc: "nth_element_post nth_element_desc"
  unfolding nth_element_post_def
proof (intro allI impI conjI)
  fix xs :: "quint16 list" and n
  assume n: "n < length xs"
  let ?s = "sort xs"
  have "mset (take (Suc n) ?s @ rev (drop (Suc n) ?s)) = mset (take (Suc n) ?s @ drop (Suc n) ?s)"
    by (simp only: mset_append mset_rev)
  then show "mset (nth_element_desc xs n) = mset xs"
    by (simp add: nth_element_desc_def)
  show "nth_element_desc xs n ! n = sort xs ! n"
    using n by (simp add: nth_element_desc_def nth_append)
  fix i j
  assume ij: "i < n \<and> n \<le> j \<and> j < length xs"
  have i: "nth_element_desc xs n ! i = ?s ! i"
    using n ij by (simp add: nth_element_desc_def nth_append)
  have "nth_element_desc xs n ! j \<in> set (drop n ?s)"
  proof (cases "j = n")
    case True
    then have "nth_element_desc xs n ! j = ?s ! n"
      using n by (simp add: nth_element_desc_def nth_append)
    also have "\<dots> = drop n ?s ! 0" using n by simp
    also have "\<dots> \<in> set (drop n ?s)" using n by (intro nth_mem) simp
    finally show ?thesis .
  next
    case False
    with ij n have "nth_element_desc xs n ! j = rev (drop (Suc n) ?s) ! (j - Suc n)"
      by (simp add: nth_element_desc_def nth_append min_def)
    also have "\<dots> \<in> set (rev (drop (Suc n) ?s))"
      using ij n False by (intro nth_mem) (simp, arith)
    also have "\<dots> \<subseteq> set (drop n ?s)"
      by (simp add: set_drop_subset_set_drop)
    finally show ?thesis .
  qed
  then obtain k where k: "k < length (drop n ?s)" "nth_element_desc xs n ! j = drop n ?s ! k"
    by (auto simp: in_set_conv_nth)
  then have "nth_element_desc xs n ! j = ?s ! (n + k)" "n + k < length ?s"
    by simp_all
  moreover have "?s ! i \<le> ?s ! (n + k)"
    using ij \<open>n + k < length ?s\<close> by (intro sorted_nth_mono) simp_all
  ultimately show "\<not> nth_element_desc xs n ! j < nth_element_desc xs n ! i"
    using i by (simp add: not_less)
qed





lemma upper_not_kept_desc:
  "\<not> upper_kept nth_element_desc [10, 20, 30, 40] \<and> median nth_element_desc [10, 20, 30, 40] = 30"
  by code_simp





section \<open>The geometry of the PAL decoder\<close>

lemma smod_16_eq_0_iff: "(k :: int) smod 16 = 0 \<longleftrightarrow> 16 dvd k"
proof
  assume "k smod 16 = 0"
  then have "\<bar>k\<bar> mod 16 = 0" by (auto simp: smod_int_alt_def sgn_if split: if_splits)
  then show "16 dvd k" by (simp add: mod_eq_0_iff_dvd)
next
  assume "16 dvd k"
  then have "\<bar>k\<bar> mod 16 = 0" by simp
  then show "k smod 16 = 0" by (simp add: smod_int_alt_def)
qed


lemma mod16_pred:
  fixes x :: int
  assumes "x mod 16 \<noteq> 0"
  shows "(x - 1) mod 16 = x mod 16 - 1"
proof -
  have "0 \<le> x mod 16" "x mod 16 < 16" by simp_all
  with assms have r: "0 \<le> x mod 16 - 1" "x mod 16 - 1 < 16" by linarith+
  have "(x - 1) mod 16 = (x mod 16 - 1) mod 16"
    by (simp add: mod_diff_left_eq)
  also have "\<dots> = x mod 16 - 1"
    using r by (rule mod_pos_pos_trivial)
  finally show ?thesis .
qed

lemma round_up_16:
  fixes w :: int
  shows "16 dvd w + (- w) mod 16"
    and "16 dvd m \<Longrightarrow> w \<le> m \<Longrightarrow> w + (- w) mod 16 \<le> m"
proof -
  have eq: "w + (- w) mod 16 = - (16 * ((- w) div 16))"
    using div_mult_mod_eq [of "- w" 16] by linarith
  then show "16 dvd w + (- w) mod 16" by simp
  assume d: "16 dvd m" and le: "w \<le> m"
  from d obtain q where m: "m = 16 * q" ..
  have "16 * (- q) \<le> - w" using le m by simp
  then have "(16 * (- q)) div 16 \<le> (- w) div 16" by (rule zdiv_mono1) simp
  then have "- q \<le> (- w) div 16" by simp
  with eq m show "w + (- w) mod 16 \<le> m" by linarith
qed


lemma expandActiveWidth_done:
  "16 dvd activeVideoEnd vp - activeVideoStart vp \<Longrightarrow> expandActiveWidth vp = vp"
  by (subst expandActiveWidth.simps) (simp add: smod_16_eq_0_iff)

lemma expandActiveWidth_again:
  "\<not> 16 dvd activeVideoEnd vp - activeVideoStart vp \<Longrightarrow>
     expandActiveWidth vp = expandActiveWidth (expandStep vp)"
  by (subst expandActiveWidth.simps) (simp add: smod_16_eq_0_iff)

text \<open>
  C8: for every PAL geometry whose active width is already a multiple of 16, \<open>configure\<close>
  succeeds and leaves the active column band as it was; the active line band is the fixed
  pair 44 and 620, whose 576 lines are even in number, so it is not reduced either.
\<close>

theorem configure_conformant:
  assumes "isSourcePal vp" and "16 dvd activeVideoEnd vp - activeVideoStart vp"
  shows "configure config vp =
           (True, config\<lparr>videoParameters := vp, frameHeight := (fieldHeight vp * 2) - 1,
                         firstActiveScanLine := 44, lastActiveScanLine := 620\<rparr>) \<and>
         activeVideoStart (videoParameters (snd (configure config vp))) = activeVideoStart vp \<and>
         activeVideoEnd (videoParameters (snd (configure config vp))) = activeVideoEnd vp \<and>
         firstActiveScanLine (snd (configure config vp)) = 44 \<and>
         lastActiveScanLine (snd (configure config vp)) = 620"
  using assms by (simp add: configure_def Let_def expandActiveWidth_done)

theorem configure_conformant_witness:
  "configure config0 palConformant =
     (True, \<lparr>blackAndWhite = False, videoParameters = palConformant, frameHeight = 625,
             firstActiveScanLine = 44, lastActiveScanLine = 620\<rparr>)"
proof -
  have pal: "isSourcePal palConformant"
    by (simp add: palConformant_def palGeometry_def)
  have w: "16 dvd activeVideoEnd palConformant - activeVideoStart palConformant"
    by (simp add: palConformant_def palGeometry_def)
  show ?thesis
    using configure_conformant [OF pal w, of config0]
    by (simp add: config0_def palConformant_def palGeometry_def)
qed

lemma activeWidth_expandStep: "activeWidth (expandStep vp) = activeWidth vp + 1"
  by (simp add: activeWidth_def expandStep_def Let_def)

lemma activeWidth_funpow: "activeWidth ((expandStep ^^ j) vp) = activeWidth vp + int j"
  by (induction j) (simp_all add: activeWidth_expandStep)



lemma expandActiveWidth_funpow:
  "expandActiveWidth vp = (expandStep ^^ nat ((- activeWidth vp) mod 16)) vp"
proof (induction k \<equiv> "nat ((- activeWidth vp) mod 16)" arbitrary: vp)
  case 0
  then have z: "nat ((- activeWidth vp) mod 16) = 0" by simp
  then have "(- activeWidth vp) mod 16 = 0" by simp
  then have "16 dvd activeWidth vp" by (simp add: mod_eq_0_iff_dvd)
  then have "expandActiveWidth vp = vp"
    by (simp add: expandActiveWidth_done activeWidth_def)
  then show ?case unfolding z by simp
next
  case (Suc k)
  then have s: "nat ((- activeWidth vp) mod 16) = Suc k" by simp
  then have k: "(- activeWidth vp) mod 16 = int k + 1" by linarith
  then have nz: "(- activeWidth vp) mod 16 \<noteq> 0" by simp
  then have n: "\<not> 16 dvd activeWidth vp" by (simp add: mod_eq_0_iff_dvd)
  have "(- activeWidth (expandStep vp)) mod 16 = (- activeWidth vp - 1) mod 16"
    by (simp add: activeWidth_expandStep)
  also have "\<dots> = int k" using mod16_pred [OF nz] k by simp
  finally have k': "nat ((- activeWidth (expandStep vp)) mod 16) = k" by simp
  from Suc.hyps(1) [OF k' [symmetric]]
  have "expandActiveWidth (expandStep vp) = (expandStep ^^ k) (expandStep vp)"
    unfolding k' .
  moreover from n have "expandActiveWidth vp = expandActiveWidth (expandStep vp)"
    by (simp add: expandActiveWidth_again activeWidth_def)
  ultimately show ?case unfolding s by (simp add: funpow_swap1)
qed



text \<open>
  \<open>configure\<close> on a PAL input, in one equation; applied to its own result it changes
  nothing.
\<close>

lemma expandStep_others:
  "isSourcePal (expandStep vp) = isSourcePal vp"
  "fieldHeight (expandStep vp) = fieldHeight vp"
  "fieldWidth (expandStep vp) = fieldWidth vp"
  by (simp_all add: expandStep_def Let_def)

lemma funpow_expandStep_others:
  "isSourcePal ((expandStep ^^ j) vp) = isSourcePal vp \<and>
   fieldHeight ((expandStep ^^ j) vp) = fieldHeight vp \<and>
   fieldWidth ((expandStep ^^ j) vp) = fieldWidth vp"
  by (induction j) (simp_all add: expandStep_others)

lemma configure_line_band:
  assumes "isSourcePal vp"
  shows "configure config vp =
           (True, config\<lparr>videoParameters := expandActiveWidth vp,
                         frameHeight := (fieldHeight vp * 2) - 1,
                         firstActiveScanLine := 44, lastActiveScanLine := 620\<rparr>)"
  using assms by (simp add: configure_def Let_def)

lemma configure_idempotent:
  assumes "isSourcePal vp" and "configure config vp = (ok, config')"
  shows "configure config' (videoParameters config') = (True, config')"
proof -
  from assms have c: "config' = config\<lparr>videoParameters := expandActiveWidth vp,
                         frameHeight := (fieldHeight vp * 2) - 1,
                         firstActiveScanLine := 44, lastActiveScanLine := 620\<rparr>"
    by (simp add: configure_line_band)
  let ?vp' = "expandActiveWidth vp"
  have run: "?vp' = (expandStep ^^ nat ((- activeWidth vp) mod 16)) vp"
    by (rule expandActiveWidth_funpow)
  have pal: "isSourcePal ?vp'" and h: "fieldHeight ?vp' = fieldHeight vp"
    unfolding run using assms(1) by (simp_all add: funpow_expandStep_others)
  have "activeWidth ?vp' = activeWidth vp + (- activeWidth vp) mod 16"
    unfolding run activeWidth_funpow by simp
  then have "16 dvd activeVideoEnd ?vp' - activeVideoStart ?vp'"
    using round_up_16(1) [of "activeWidth vp"] by (simp add: activeWidth_def)
  then have "expandActiveWidth ?vp' = ?vp'"
    by (rule expandActiveWidth_done)
  with pal h show ?thesis
    unfolding c by (simp add: configure_line_band)
qed

text \<open>
  The loop moves each edge outwards only, by at most one sample in an iteration. When the
  two edges, the edges moved by 15 and the width raised by 15 fit into 32 bits, so does every
  value the loop computes: on such geometries the integers of the model are the \<open>qint32\<close>
  of the source.
\<close>

lemma expandStep_edges:
  "activeVideoStart vp - 1 \<le> activeVideoStart (expandStep vp) \<and>
   activeVideoStart (expandStep vp) \<le> activeVideoStart vp \<and>
   activeVideoEnd vp \<le> activeVideoEnd (expandStep vp) \<and>
   activeVideoEnd (expandStep vp) \<le> activeVideoEnd vp + 1"
  by (simp add: expandStep_def Let_def)

lemma funpow_expandStep_edges:
  "activeVideoStart vp - int j \<le> activeVideoStart ((expandStep ^^ j) vp) \<and>
   activeVideoStart ((expandStep ^^ j) vp) \<le> activeVideoStart vp \<and>
   activeVideoEnd vp \<le> activeVideoEnd ((expandStep ^^ j) vp) \<and>
   activeVideoEnd ((expandStep ^^ j) vp) \<le> activeVideoEnd vp + int j"
proof (induction j)
  case 0
  show ?case by simp
next
  case (Suc j)
  with expandStep_edges [of "(expandStep ^^ j) vp"] show ?case
    by (simp del: funpow.simps add: funpow.simps(2) o_def)
qed

lemma expandActiveWidth_in_qint32:
  assumes "in_qint32 (activeVideoStart vp - 15)" "in_qint32 (activeVideoStart vp)"
    and "in_qint32 (activeVideoEnd vp)" "in_qint32 (activeVideoEnd vp + 15)"
    and "in_qint32 (activeWidth vp)" "in_qint32 (activeWidth vp + 15)"
    and "j \<le> nat ((- activeWidth vp) mod 16)"
  shows "in_qint32 (activeVideoStart ((expandStep ^^ j) vp)) \<and>
         in_qint32 (activeVideoEnd ((expandStep ^^ j) vp)) \<and>
         in_qint32 (activeWidth ((expandStep ^^ j) vp))"
proof -
  have "(- activeWidth vp) mod 16 < 16" by simp
  with assms(7) have "int j \<le> 15" by linarith
  with assms(1-6) funpow_expandStep_edges [of vp j] show ?thesis
    unfolding activeWidth_funpow in_qint32_def by auto
qed

section \<open>The output frame of the PAL worker\<close>

lemma foldl_append_concat: "foldl (\<lambda>acc y. acc @ f y) acc ys = acc @ concat (map f ys)"
  by (induction ys arbitrary: acc) simp_all

lemma mid_inside:
  assumes "0 \<le> pos" "0 \<le> len" "pos + len \<le> int (length xs)"
  shows "mid xs pos len = take (nat len) (drop (nat pos) xs)"
    and "length (mid xs pos len) = nat len"
  using assms by (auto simp: mid_def)

lemma length_concat_const:
  "\<forall>l \<in> set ls. length l = n \<Longrightarrow> length (concat ls) = length ls * n"
  by (induction ls) simp_all

text \<open>
  C9: for every decoded frame whose buffer holds the active column span of each in-band
  scan line, with a line band of at most 576 lines, the output is 576 lines of
  \<open>activeVideoEnd - activeVideoStart\<close> pixels of 6 bytes each: first
  \<open>576 - (lastActiveScanLine - firstActiveScanLine)\<close> lines of zeros, then the active span
  of each in-band line of the buffer, in line order.
\<close>

theorem rgbOutputData_lines:
  fixes config :: Configuration and outputData :: "byte list"
  defines "s \<equiv> activeVideoStart (videoParameters config)"
    and "e \<equiv> activeVideoEnd (videoParameters config)"
    and "fw \<equiv> fieldWidth (videoParameters config)"
    and "firstLine \<equiv> firstActiveScanLine config"
    and "lastLine \<equiv> lastActiveScanLine config"
  assumes band: "0 \<le> lastLine - firstLine" "lastLine - firstLine \<le> 576"
    and cols: "s \<le> e"
    and inside: "\<forall>y \<in> {firstLine ..< lastLine}.
                   0 \<le> (y * fw * 6) + (s * 6) \<and> (y * fw * 6) + (e * 6) \<le> int (length outputData)"
  shows "\<exists>lines.
           rgbOutputData config outputData = concat lines \<and>
           length lines = 576 \<and>
           (\<forall>l \<in> set lines. int (length l) = (e - s) * 6) \<and>
           lines =
             replicate (nat (576 - (lastLine - firstLine))) (replicate (nat ((e - s) * 6)) 0) @
             map (\<lambda>y. take (nat ((e - s) * 6)) (drop (nat ((y * fw * 6) + (s * 6))) outputData))
               [firstLine .. lastLine - 1] \<and>
           length (concat lines) = 576 * nat ((e - s) * 6)"
proof -
  let ?len = "(e - s) * 6"
  let ?blankLine = "replicate (nat ?len) (0 :: byte)"
  let ?blank = "replicate (nat (576 - (lastLine - firstLine))) ?blankLine"
  let ?line = "\<lambda>y. take (nat ?len) (drop (nat ((y * fw * 6) + (s * 6))) outputData)"
  let ?active = "map ?line [firstLine .. lastLine - 1]"
  have len: "0 \<le> ?len" using cols by simp
  have blank: "map (\<lambda>y. ?blankLine) [0 .. 576 - (lastLine - firstLine) - 1] = ?blank"
    by (simp add: map_replicate_const)
  have line: "mid outputData ((y * fw * 6) + (s * 6)) ?len = ?line y \<and> length (?line y) = nat ?len"
    if "y \<in> set [firstLine .. lastLine - 1]" for y
  proof -
    from that have "y \<in> {firstLine ..< lastLine}" by auto
    with inside have "0 \<le> (y * fw * 6) + (s * 6)"
      and "(y * fw * 6) + (s * 6) + ?len \<le> int (length outputData)"
      by (auto simp: algebra_simps)
    from mid_inside [OF this(1) len this(2)] show ?thesis by simp
  qed
  then have active: "map (\<lambda>y. mid outputData ((y * fw * 6) + (s * 6)) ?len) [firstLine .. lastLine - 1] = ?active"
    by (intro map_cong) simp_all
  have "rgbOutputData config outputData =
          ([] @ concat (map (\<lambda>y. ?blankLine) [0 .. 576 - (lastLine - firstLine) - 1])) @
          concat (map (\<lambda>y. mid outputData ((y * fw * 6) + (s * 6)) ?len) [firstLine .. lastLine - 1])"
    unfolding rgbOutputData_def Let_def foldl_append_concat
      s_def e_def fw_def firstLine_def lastLine_def ..
  also have "\<dots> = concat (?blank @ ?active)"
    unfolding blank active by simp
  finally have eq: "rgbOutputData config outputData = concat (?blank @ ?active)" .
  have n: "length (?blank @ ?active) = 576"
    using band by simp
  have each: "\<forall>l \<in> set (?blank @ ?active). int (length l) = ?len"
    using line len by auto
  from each have "\<forall>l \<in> set (?blank @ ?active). length l = nat ?len"
    by (metis nat_int)
  then have "length (concat (?blank @ ?active)) = length (?blank @ ?active) * nat ?len"
    by (rule length_concat_const)
  with n have total: "length (concat (?blank @ ?active)) = 576 * nat ?len"
    by simp
  from eq n each total show ?thesis by blast
qed

text \<open>
  The configuration of the PAL capture and a whole frame of 1135 by 625 pixels: 576 lines
  of 928 pixels, none of them blank.
\<close>

theorem rgbOutputData_lines_witness:
  "snd (configure config0 palGeometry) =
     \<lparr>blackAndWhite = False, videoParameters = palConformant, frameHeight = 625,
      firstActiveScanLine = 44, lastActiveScanLine = 620\<rparr> \<and>
   length (rgbOutputData (snd (configure config0 palGeometry)) (replicate (1135 * 625 * 6) 0)) =
     576 * (928 * 6)"
proof -
  let ?config = "\<lparr>blackAndWhite = False, videoParameters = palConformant, frameHeight = 625,
      firstActiveScanLine = 44, lastActiveScanLine = 620\<rparr>"
  let ?out = "replicate (1135 * 625 * 6) (0 :: byte)"
  have c: "snd (configure config0 palGeometry) = ?config"
    by code_simp
  have band: "0 \<le> lastActiveScanLine ?config - firstActiveScanLine ?config"
    "lastActiveScanLine ?config - firstActiveScanLine ?config \<le> 576"
    by simp_all
  have cols: "activeVideoStart (videoParameters ?config) \<le> activeVideoEnd (videoParameters ?config)"
    by (simp add: palConformant_def palGeometry_def)
  have inside: "\<forall>y \<in> {firstActiveScanLine ?config ..< lastActiveScanLine ?config}.
      0 \<le> (y * fieldWidth (videoParameters ?config) * 6) + (activeVideoStart (videoParameters ?config) * 6) \<and>
      (y * fieldWidth (videoParameters ?config) * 6) + (activeVideoEnd (videoParameters ?config) * 6)
        \<le> int (length ?out)"
    by (simp add: palConformant_def palGeometry_def)
  from rgbOutputData_lines [OF band cols inside]
  have "length (rgbOutputData ?config ?out) =
          576 * nat ((activeVideoEnd (videoParameters ?config) - activeVideoStart (videoParameters ?config)) * 6)"
    by metis
  then show ?thesis
    unfolding c by (simp add: palConformant_def palGeometry_def)
qed

section \<open>The worker loops and a failed submission\<close>

text \<open>
  The PAL worker stops at the first failed submission with the flag raised. The stacker
  never changes the flag and goes through the whole pool, whatever the answers.
\<close>

lemma palThread_run_stops_at_failure:
  "palThread_run False (replicate n True @ False # pool) =
     (True, concat (replicate n [GetInputFrame True, PutOutputFrame True]) @
            [GetInputFrame True, PutOutputFrame False])"
  by (induction n) simp_all

lemma stacker_run_drains:
  "stacker_run False pool =
     (False, concat (map (\<lambda>accepted. [GetInputFrame True, PutOutputFrame accepted]) pool) @
             [GetInputFrame False])"
  by (induction pool) simp_all

lemma stacker_run_flag: "fst (stacker_run abort pool) = abort"
  by (induction pool) (auto simp: split_beta)

text \<open>
  C1 asks of both workers that a failed submission sets the cancellation flag and ends
  the loop before another unit of work is claimed. With two frames in the pool and a
  failure on the first, \<open>PalThread::run\<close> does so, and \<open>Stacker::run\<close> leaves the flag
  clear, claims and submits the second frame and stops only when the pool is empty.
\<close>

theorem stacker_run_ignores_failed_output:
  "stacker_run False [False, True] =
     (False, [GetInputFrame True, PutOutputFrame False,
              GetInputFrame True, PutOutputFrame True, GetInputFrame False]) \<and>
   palThread_run False [False, True] = (True, [GetInputFrame True, PutOutputFrame False])"
  by simp

end
